theory Spec2Isabelle
  imports Complex_Main "HOL-Library.Multiset"
begin

section \<open>Out-of-core shuffling: the model\<close>

text \<open>
  The development embeds \<^verbatim>\<open>src/utils/shuffle.py\<close>: \<^verbatim>\<open>shuffle_train\<close>,
  \<^verbatim>\<open>external_sort\<close> and \<^verbatim>\<open>external_shuffle\<close>.

  The module \<^verbatim>\<open>blocks\<close> (\<^verbatim>\<open>BlockBuffer\<close>, \<^verbatim>\<open>BlockScope\<close>, \<^verbatim>\<open>BlockWriter\<close>,
  \<^verbatim>\<open>bytes_per_dtype\<close>) is not among the sources. Its classes are modelled from the
  specification (sections 4.2 to 4.4); each such definition says so.

  Sample counts, feature counts and block sizes are natural numbers. The values of
  the elements are of an arbitrary type \<open>'a\<close>; an element type such as
  \<^verbatim>\<open>'float64'\<close> is a name that the helpers receive, and the helpers store and return
  element values unchanged.
\<close>

subsection \<open>Errors, calls, the world\<close>

text \<open>
  Every exception of the program is a value. \<open>InvalidAlgorithm\<close> is the
  \<^verbatim>\<open>AssertionError\<close> of \<^verbatim>\<open>shuffle_train\<close> (line 24); \<open>ZeroDivisionError\<close> is
  raised by \<^verbatim>\<open>/\<close> and \<^verbatim>\<open>//\<close> (lines 76 and 86); the other three
  are the conditions that the specification gives to the block helpers.
\<close>

datatype error =
    InvalidAlgorithm
  | ZeroDivisionError
  | DatasetReadError
  | DatasetWriteError
  | SlotNotFound

text \<open>
  The constructor calls of the block helpers and the rounds of the merge loop are
  recorded in a trace, each with its actual arguments, in the order of execution.
  \<open>MergeRound k\<close> is one execution of the body of \<^verbatim>\<open>while buffers:\<close> that starts
  with \<open>k\<close> active cursors.
\<close>

datatype call =
    NewBlockScope string string nat
  | NewBlockWriter string nat string
  | NewBlockBuffer string nat string "nat \<times> nat"
  | MergeRound nat

type_synonym 'a row = "'a list"
type_synonym 'a block = "'a row list"

text \<open>
  The world of a run. \<open>dataset\<close> holds the element values stored back to back in the
  file at \<^verbatim>\<open>train_path\<close> when the run starts; \<open>written\<close> holds the blocks that the
  Block Writer has appended, in call order. The writer works on the same path and opens
  the file on its first write; the reader has consumed the file before that (Phase 1
  ends before Phase 2 starts). The model keeps what was read and what was written apart
  so that the two can be compared. \<open>scratch\<close> maps a slot index to the block persisted there.
  \<open>entropy\<close> is the output sequence of the process-wide random generator and \<open>drawn\<close>
  the number of draws made so far. \<open>read_ok\<close>, \<open>scratch_ok\<close> and \<open>write_ok\<close> are the
  environment: whether reading the \<open>i\<close>-th block, persisting slot \<open>i\<close> and appending the
  \<open>i\<close>-th output block succeed.
\<close>

record 'a world =
  dataset :: "'a list"
  written :: "'a block list"
  scratch :: "nat \<rightharpoonup> 'a block"
  entropy :: "nat \<Rightarrow> nat"
  drawn :: nat
  trace :: "call list"
  read_ok :: "nat \<Rightarrow> bool"
  scratch_ok :: "nat \<Rightarrow> bool"
  write_ok :: "nat \<Rightarrow> bool"

text \<open>
  The world before a run over a file holding \<open>vals\<close>: nothing written, no scratch
  slot, no draw made, and an environment in which no I/O operation fails.
\<close>

definition initial_world :: "'a list \<Rightarrow> (nat \<Rightarrow> nat) \<Rightarrow> 'a world" where
  "initial_world vals gen =
     \<lparr>dataset = vals, written = [], scratch = Map.empty, entropy = gen, drawn = 0,
      trace = [], read_ok = (\<lambda>_. True), scratch_ok = (\<lambda>_. True),
      write_ok = (\<lambda>_. True)\<rparr>"

type_synonym ('r, 'a) io = "'a world \<Rightarrow> (error + 'r) \<times> 'a world"

definition log_call :: "call \<Rightarrow> 'a world \<Rightarrow> 'a world" where
  "log_call c w = w\<lparr>trace := trace w @ [c]\<rparr>"

text \<open>
  The file at \<^verbatim>\<open>train_path\<close> after a run. The Block Writer opens the file on first use
  (4.3): as long as no block has been written the file is the dataset as it was; from
  the first write on it holds the blocks appended, in order.
\<close>

definition output_file :: "'a world \<Rightarrow> 'a list" where
  "output_file w = (if written w = [] then dataset w else concat (concat (written w)))"


subsection \<open>\<^verbatim>\<open>np.random.shuffle\<close>\<close>

text \<open>
  \<^verbatim>\<open>np.random.shuffle(x)\<close> permutes the rows of \<open>x\<close> in place by the Fisher-Yates
  loop \<^verbatim>\<open>for i in reversed(range(1, n)): j = random_interval(i); x[i], x[j] = x[j], x[i]\<close>,
  where \<open>j\<close> is drawn from \<open>0..i\<close>. A draw takes the next value of the generator's
  sequence; since the sequence is arbitrary, every outcome of the shuffle is covered.
\<close>

definition draw :: "'a world \<Rightarrow> nat \<times> 'a world" where
  "draw w = (entropy w (drawn w), w\<lparr>drawn := Suc (drawn w)\<rparr>)"

definition swap_rows :: "nat \<Rightarrow> nat \<Rightarrow> 'b list \<Rightarrow> 'b list" where
  "swap_rows i j xs = xs[i := xs ! j, j := xs ! i]"

fun shuffle_from :: "nat \<Rightarrow> 'b list \<Rightarrow> 'a world \<Rightarrow> 'b list \<times> 'a world" where
  "shuffle_from 0 xs w = (xs, w)"
| "shuffle_from (Suc i) xs w =
     (let (r, w') = draw w;
          j = r mod (Suc (Suc i))
      in shuffle_from i (swap_rows (Suc i) j xs) w')"

definition np_random_shuffle :: "'b list \<Rightarrow> 'a world \<Rightarrow> 'b list \<times> 'a world" where
  "np_random_shuffle xs w = shuffle_from (length xs - 1) xs w"

subsection \<open>The block helpers\<close>

text \<open>
  \<open>chunks k xs\<close> cuts \<open>xs\<close> into consecutive pieces of \<open>k\<close> items, the last one
  possibly shorter. It serves for the samples of a file (pieces of \<open>d + 1\<close> values) and
  for the blocks of the reader. A piece size of \<open>0\<close> gives no piece.
\<close>

function chunks :: "nat \<Rightarrow> 'b list \<Rightarrow> 'b list list" where
  "chunks k xs = (if k = 0 \<or> xs = [] then [] else take k xs # chunks k (drop k xs))"
  by pat_completeness auto
termination
  by (relation "measure (\<lambda>(k, xs). length xs)") auto

declare chunks.simps [simp del]

text \<open>
  Modelled from the spec: \<^verbatim>\<open>BlockBuffer(dtype, num_per_block, path, shape)\<close> of the
  missing module \<^verbatim>\<open>blocks\<close>, the Sequential Block Reader (4.2). It streams the file
  forward as blocks of \<open>num_per_block\<close> samples of \<open>snd shape\<close> values each; the final
  block is shorter when the file does not hold a multiple of \<open>num_per_block\<close> samples.
  \<open>BlockBuffer_blocks\<close> gives the raw values of the successive blocks and
  \<open>reshape\<close> turns the values of one block into rows; values that do not make whole
  rows are a truncated file, a \<open>DatasetReadError\<close>.
\<close>

definition BlockBuffer_blocks :: "nat \<Rightarrow> nat \<times> nat \<Rightarrow> 'a list \<Rightarrow> 'a list list" where
  "BlockBuffer_blocks num_per_block shape vals = chunks (num_per_block * snd shape) vals"

definition reshape :: "nat \<Rightarrow> 'a list \<Rightarrow> error + 'a block" where
  "reshape k vals =
     (if length vals mod k \<noteq> 0 then Inl DatasetReadError else Inr (chunks k vals))"

text \<open>
  Modelled from the spec: \<^verbatim>\<open>BlockWriter.write(block)\<close> of the missing module
  \<^verbatim>\<open>blocks\<close>, the Sequential Block Writer (4.3). Each call appends the block; a write
  failure is the fatal \<open>DatasetWriteError\<close> and leaves what was written before.
\<close>

definition writer_write :: "'a block \<Rightarrow> (unit, 'a) io" where
  "writer_write block w =
     (if \<not> write_ok w (length (written w)) then (Inl DatasetWriteError, w)
      else (Inr (), w\<lparr>written := written w @ [block]\<rparr>))"

text \<open>
  Modelled from the spec: the Scratch Scope \<^verbatim>\<open>BlockScope(dtype, name, num_per_block)\<close>
  of the missing module \<^verbatim>\<open>blocks\<close> (4.4), used as \<^verbatim>\<open>with BlockScope(...) as scope\<close>.
  Entering acquires an empty scratch area; leaving deletes all scratch slots on every
  exit path and does not swallow the exception of the body: the outcome of the body is
  the outcome of the \<^verbatim>\<open>with\<close> statement.
\<close>

definition scope_enter :: "string \<Rightarrow> string \<Rightarrow> nat \<Rightarrow> 'a world \<Rightarrow> 'a world" where
  "scope_enter dtype name num_per_block w =
     (log_call (NewBlockScope dtype name num_per_block) w)\<lparr>scratch := Map.empty\<rparr>"

definition scope_exit :: "'a world \<Rightarrow> 'a world" where
  "scope_exit w = w\<lparr>scratch := Map.empty\<rparr>"

definition with_BlockScope ::
  "string \<Rightarrow> string \<Rightarrow> nat \<Rightarrow> ('a world \<Rightarrow> ((error + 'r) \<times> 'a world) option) \<Rightarrow>
   'a world \<Rightarrow> ((error + 'r) \<times> 'a world) option" where
  "with_BlockScope dtype name num_per_block body w =
     (case body (scope_enter dtype name num_per_block w) of
        None \<Rightarrow> None
      | Some (r, w') \<Rightarrow> Some (r, scope_exit w'))"

text \<open>
  Modelled from the spec: \<^verbatim>\<open>scope.write_block(index, block)\<close> of the missing module
  \<^verbatim>\<open>blocks\<close> (4.4): persist the block as scratch slot \<open>index\<close>, overwriting what was
  there. A failed scratch write is a \<open>DatasetWriteError\<close> (scenario C of section 8).
\<close>

definition write_block :: "nat \<Rightarrow> 'a block \<Rightarrow> (unit, 'a) io" where
  "write_block index block w =
     (if \<not> scratch_ok w index then (Inl DatasetWriteError, w)
      else (Inr (), w\<lparr>scratch := (scratch w)(index \<mapsto> block)\<rparr>))"

text \<open>
  Modelled from the spec: the Sub-Buffer Cursor returned by
  \<^verbatim>\<open>scope.get_block_buffer(index, chunk_size, shape)\<close> of the missing module \<^verbatim>\<open>blocks\<close>
  (4.4), a lazy reader over one scratch slot. \<open>unread\<close> are the rows of the slot that
  the cursor has not yielded yet, \<open>chunk\<close> is its chunk size. Opening a cursor on a slot
  that was never written is \<open>SlotNotFound\<close>. \<open>next_chunk\<close> is \<^verbatim>\<open>next(buffer)\<close>: it
  yields the next \<open>chunk\<close> rows (fewer at the end of the slot) until the slot is
  exhausted, and then signals the end of the sequence (\<open>None\<close>, Python's
  \<^verbatim>\<open>StopIteration\<close>). The slot is exhausted when no row is unread: a cursor of chunk
  size \<open>0\<close> over a slot with rows yields an empty chunk each time and never ends.
\<close>

record 'a cursor =
  unread :: "'a block"
  chunk :: nat

definition get_block_buffer :: "nat \<Rightarrow> nat \<Rightarrow> nat \<times> nat \<Rightarrow> ('a cursor, 'a) io" where
  "get_block_buffer index chunk_size shape w =
     (case scratch w index of
        None \<Rightarrow> (Inl SlotNotFound, w)
      | Some block \<Rightarrow> (Inr \<lparr>unread = block, chunk = chunk_size\<rparr>, w))"

definition next_chunk :: "'a cursor \<Rightarrow> ('a block \<times> 'a cursor) option" where
  "next_chunk b =
     (if unread b = [] then None
      else Some (take (chunk b) (unread b), b\<lparr>unread := drop (chunk b) (unread b)\<rparr>))"

subsection \<open>\<^verbatim>\<open>external_shuffle\<close>\<close>

text \<open>
  Line 76, \<^verbatim>\<open>num_buffers = n / num_per_block\<close>, is Python 3 true division, and line 86
  passes \<^verbatim>\<open>num_per_block // num_buffers\<close>, a floor division by that quotient, as the
  chunk size. Both raise \<^verbatim>\<open>ZeroDivisionError\<close> on a zero divisor. Python computes
  both in binary floating point; here the quotient is an exact rational and the chunk
  size the floor of an exact quotient. The two agree whenever \<open>num_per_block\<close> divides
  \<open>n\<close> and the numbers are below \<open>2^53\<close>; otherwise the chunk size of the program can
  differ from this one by rounding (\<open>n = 25\<close>, \<open>num_per_block = 15\<close>: 8 in the program,
  9 here). Where a statement below covers runs in which \<open>num_per_block\<close> does not
  divide \<open>n\<close>, it depends on the chunk size only through its being zero or positive.
\<close>

definition true_div :: "nat \<Rightarrow> nat \<Rightarrow> error + rat" where
  "true_div a b = (if b = 0 then Inl ZeroDivisionError else Inr (of_nat a / of_nat b))"

definition floor_div :: "nat \<Rightarrow> rat \<Rightarrow> error + nat" where
  "floor_div a q = (if q = 0 then Inl ZeroDivisionError else Inr (nat \<lfloor>of_nat a / q\<rfloor>))"

text \<open>
  Phase 1, lines 83 to 87: \<^verbatim>\<open>for i, block in enumerate(blocks)\<close>. \<open>k\<close> is the
  number of values of a row, the second component of \<open>shape\<close>, so that
  \<open>(num_per_block, k)\<close> is \<open>shape\<close>. The fifth argument holds the raw blocks that the
  reader has still to deliver, \<open>buffers\<close> is the list of cursors built so far.
\<close>

fun phase1 ::
  "nat \<Rightarrow> nat \<Rightarrow> rat \<Rightarrow> nat \<Rightarrow> 'a list list \<Rightarrow> 'a cursor list \<Rightarrow> ('a cursor list, 'a) io" where
  "phase1 num_per_block k num_buffers i [] buffers w = (Inr buffers, w)"
| "phase1 num_per_block k num_buffers i (raw # rest) buffers w =
     (if \<not> read_ok w i then (Inl DatasetReadError, w)
      else case reshape k raw of
        Inl e \<Rightarrow> (Inl e, w)
      | Inr block \<Rightarrow>
          (case np_random_shuffle block w of (block', w1) \<Rightarrow>
            (case write_block i block' w1 of
               (Inl e, w2) \<Rightarrow> (Inl e, w2)
             | (Inr _, w2) \<Rightarrow>
                (case floor_div num_per_block num_buffers of
                   Inl e \<Rightarrow> (Inl e, w2)
                 | Inr chunk_size \<Rightarrow>
                    (case get_block_buffer i chunk_size (num_per_block, k) w2 of
                       (Inl e, w3) \<Rightarrow> (Inl e, w3)
                     | (Inr buffer, w3) \<Rightarrow>
                         phase1 num_per_block k num_buffers (Suc i) rest
                           (buffers @ [buffer]) w3)))))"

text \<open>
  Lines 90 to 101, the inner \<^verbatim>\<open>for\<close> loop of one round: every cursor is asked for its
  next chunk; an exhausted cursor is skipped (\<^verbatim>\<open>continue\<close>), a yielding one is kept and
  its chunk is concatenated to \<open>current_block\<close>.
\<close>

fun pull_chunks ::
  "'a cursor list \<Rightarrow> 'a block option \<Rightarrow> 'a cursor list \<Rightarrow> 'a block option \<times> 'a cursor list" where
  "pull_chunks [] current_block remaining_buffers = (current_block, remaining_buffers)"
| "pull_chunks (buffer # rest) current_block remaining_buffers =
     (case next_chunk buffer of
        None \<Rightarrow> pull_chunks rest current_block remaining_buffers
      | Some (block, buffer') \<Rightarrow>
          pull_chunks rest
            (Some (case current_block of None \<Rightarrow> block | Some cb \<Rightarrow> cb @ block))
            (remaining_buffers @ [buffer']))"

text \<open>One execution of the body of \<^verbatim>\<open>while buffers:\<close>, lines 90 to 104.\<close>

definition merge_round :: "'a cursor list \<Rightarrow> ('a cursor list, 'a) io" where
  "merge_round buffers w =
     (case pull_chunks buffers None [] of (current_block, remaining_buffers) \<Rightarrow>
        (case current_block of
           None \<Rightarrow> (Inr remaining_buffers, log_call (MergeRound (length buffers)) w)
         | Some cb \<Rightarrow>
            (case np_random_shuffle cb (log_call (MergeRound (length buffers)) w) of
               (cb', w1) \<Rightarrow>
                 (case writer_write cb' w1 of
                    (Inl e, w2) \<Rightarrow> (Inl e, w2)
                  | (Inr _, w2) \<Rightarrow> (Inr remaining_buffers, w2)))))"

text \<open>
  Phase 2, the loop of line 89. It is defined without a termination argument; a run that
  never leaves the loop has the value \<open>None\<close>.
\<close>

partial_function (option) phase2 ::
  "'a cursor list \<Rightarrow> 'a world \<Rightarrow> ((error + unit) \<times> 'a world) option" where
  "phase2 buffers w =
     (if buffers = [] then Some (Inr (), w)
      else case merge_round buffers w of
             (Inl e, w') \<Rightarrow> Some (Inl e, w')
           | (Inr remaining_buffers, w') \<Rightarrow> phase2 remaining_buffers w')"

declare phase2.simps [code]

text \<open>The body of the \<^verbatim>\<open>with\<close> statement, lines 78 to 104.\<close>

definition shuffle_body ::
  "string \<Rightarrow> rat \<Rightarrow> nat \<Rightarrow> nat \<Rightarrow> string \<Rightarrow> 'a world \<Rightarrow> ((error + unit) \<times> 'a world) option" where
  "shuffle_body dtype num_buffers num_features num_per_block train_path w =
     (let shape = (num_per_block, num_features + 1);
          w1 = log_call (NewBlockWriter dtype num_per_block train_path) w;
          w2 = log_call (NewBlockBuffer dtype num_per_block train_path shape) w1;
          blocks = BlockBuffer_blocks num_per_block shape (dataset w2)
      in case phase1 num_per_block (snd shape) num_buffers 0 blocks [] w2 of
           (Inl e, w3) \<Rightarrow> Some (Inl e, w3)
         | (Inr buffers, w3) \<Rightarrow> phase2 buffers w3)"

text \<open>
  \<^verbatim>\<open>external_shuffle(dtype, n, num_features, num_per_block, train_path)\<close>, with the
  parameters in the order of the \<^verbatim>\<open>def\<close> (lines 58 to 63).
\<close>

definition external_shuffle ::
  "string \<Rightarrow> nat \<Rightarrow> nat \<Rightarrow> nat \<Rightarrow> string \<Rightarrow> 'a world \<Rightarrow> ((error + unit) \<times> 'a world) option" where
  "external_shuffle dtype n num_features num_per_block train_path w =
     (case true_div n num_per_block of
        Inl e \<Rightarrow> Some (Inl e, w)
      | Inr num_buffers \<Rightarrow>
          with_BlockScope ''float64'' ''samplesort'' num_per_block
            (shuffle_body dtype num_buffers num_features num_per_block train_path) w)"

subsection \<open>\<^verbatim>\<open>external_sort\<close> and \<^verbatim>\<open>shuffle_train\<close>\<close>

text \<open>\<^verbatim>\<open>external_sort\<close> (lines 31 to 55): the body is \<^verbatim>\<open>pass\<close>.\<close>

definition external_sort ::
  "string \<Rightarrow> nat \<Rightarrow> nat \<Rightarrow> nat \<Rightarrow> string \<Rightarrow> 'a world \<Rightarrow> ((error + unit) \<times> 'a world) option" where
  "external_sort dtype n num_features num_per_block train_path w = Some (Inr (), w)"

definition ALGORITHMS :: "string list" where
  "ALGORITHMS = [''external_sort'', ''external_shuffle'']"

text \<open>
  \<^verbatim>\<open>shuffle_train(algorithm, dtype, n, num_features, num_per_block, train_path)\<close>, lines 16
  to 28. Both calls pass their arguments by position, in the order written at lines 26
  and 28: \<^verbatim>\<open>(dtype, n, num_per_block, num_features, train_path)\<close>.
\<close>

definition shuffle_train ::
  "string \<Rightarrow> string \<Rightarrow> nat \<Rightarrow> nat \<Rightarrow> nat \<Rightarrow> string \<Rightarrow> 'a world \<Rightarrow>
   ((error + unit) \<times> 'a world) option" where
  "shuffle_train algorithm dtype n num_features num_per_block train_path w =
     (if algorithm \<notin> set ALGORITHMS then Some (Inl InvalidAlgorithm, w)
      else if algorithm = ''external_sort''
        then external_sort dtype n num_per_block num_features train_path w
        else external_shuffle dtype n num_per_block num_features train_path w)"

subsection \<open>Observations on a run\<close>

text \<open>
  The samples of a file whose samples have \<open>num_features\<close> features and one label:
  consecutive pieces of \<open>num_features + 1\<close> values.
\<close>

definition samples :: "nat \<Rightarrow> 'a list \<Rightarrow> 'a row list" where
  "samples num_features vals = chunks (num_features + 1) vals"

text \<open>The calls that a run from \<open>w\<close> to \<open>w'\<close> has added to the trace.\<close>

definition run_trace :: "'a world \<Rightarrow> 'a world \<Rightarrow> call list" where
  "run_trace w w' = drop (length (trace w)) (trace w')"

text \<open>
  The rounds of the merge loop in a trace: for each round, the number of cursors that
  were active when it started.
\<close>

fun merge_rounds :: "call list \<Rightarrow> nat list" where
  "merge_rounds [] = []"
| "merge_rounds (MergeRound k # cs) = k # merge_rounds cs"
| "merge_rounds (c # cs) = merge_rounds cs"

text \<open>
  The variant of the merge loop: every active cursor counts for one more than the rows
  it has not yielded.
\<close>

definition cursor_measure :: "'a cursor list \<Rightarrow> nat" where
  "cursor_measure buffers = sum_list (map (\<lambda>b. Suc (length (unread b))) buffers)"

definition block_rows :: "'a block option \<Rightarrow> 'a block" where
  "block_rows current_block = (case current_block of None \<Rightarrow> [] | Some cb \<Rightarrow> cb)"

text \<open>The parts of the world that no operation of the program changes.\<close>

definition same_environment :: "'a world \<Rightarrow> 'a world \<Rightarrow> bool" where
  "same_environment w w' =
     (dataset w' = dataset w \<and> entropy w' = entropy w \<and> read_ok w' = read_ok w \<and>
      scratch_ok w' = scratch_ok w \<and> write_ok w' = write_ok w)"

text \<open>
  What is seen of a finished run that started with an empty trace: its outcome, the
  calls it made, and the values of the output file.
\<close>

definition run_report ::
  "((error + unit) \<times> 'a world) option \<Rightarrow> ((error + unit) \<times> call list \<times> 'a list) option" where
  "run_report res = map_option (\<lambda>(r, w'). (r, trace w', output_file w')) res"

text \<open>A generator that always draws \<open>v\<close>, and an environment that fails at index \<open>k\<close> only.\<close>

definition constant_gen :: "nat \<Rightarrow> nat \<Rightarrow> nat" where
  "constant_gen v i = v"

definition ok_except :: "nat \<Rightarrow> nat \<Rightarrow> bool" where
  "ok_except k i = (i \<noteq> k)"

section \<open>Properties of the helpers\<close>

subsection \<open>Cutting into pieces\<close>

lemma chunks_Nil [simp]: "chunks k [] = []"
  by (simp add: chunks.simps)

lemma chunks_0 [simp]: "chunks 0 xs = []"
  by (simp add: chunks.simps)

lemma chunks_step: "0 < k \<Longrightarrow> xs \<noteq> [] \<Longrightarrow> chunks k xs = take k xs # chunks k (drop k xs)"
  by (subst chunks.simps) simp


lemma chunks_no_empty: "[] \<notin> set (chunks k xs)"
proof (induction k xs rule: chunks.induct)
  case (1 k xs)
  show ?case
  proof (cases "k = 0 \<or> xs = []")
    case True
    then show ?thesis by auto
  next
    case False
    with 1 show ?thesis by (simp add: chunks_step)
  qed
qed




lemma chunks_whole: "xs \<noteq> [] \<Longrightarrow> length xs = k \<Longrightarrow> chunks k xs = [xs]"
  by (subst chunks.simps) auto

subsection \<open>The shuffle permutes and only draws\<close>

lemma mset_swap_rows:
  "i < length xs \<Longrightarrow> j < length xs \<Longrightarrow> mset (swap_rows i j xs) = mset xs"
  unfolding swap_rows_def by (metis mset_swap)

lemma length_swap_rows [simp]: "length (swap_rows i j xs) = length xs"
  by (simp add: swap_rows_def)

lemma shuffle_from_mset:
  "i \<le> length xs - 1 \<Longrightarrow> mset (fst (shuffle_from i xs w)) = mset xs"
proof (induction i arbitrary: xs w)
  case 0
  then show ?case by simp
next
  case (Suc i)
  then have len: "Suc i < length xs" by simp
  have j: "entropy w (drawn w) mod Suc (Suc i) < length xs"
    using len by (meson Suc_lessI less_trans_Suc mod_less_divisor not_less_eq zero_less_Suc less_le_trans Suc_leI)
  have "mset (swap_rows (Suc i) (entropy w (drawn w) mod Suc (Suc i)) xs) = mset xs"
    using len j by (rule mset_swap_rows)
  moreover have "i \<le> length (swap_rows (Suc i) (entropy w (drawn w) mod Suc (Suc i)) xs) - 1"
    using Suc.prems by simp
  ultimately show ?case
    using Suc.IH by (simp add: draw_def)
qed

lemma shuffle_from_world: "snd (shuffle_from i xs w) = w\<lparr>drawn := drawn w + i\<rparr>"
  by (induction i arbitrary: xs w) (simp_all add: draw_def)

lemma np_random_shuffle_eq:
  "\<exists>ys. np_random_shuffle xs w = (ys, w\<lparr>drawn := drawn w + (length xs - 1)\<rparr>) \<and> mset ys = mset xs"
  unfolding np_random_shuffle_def
  by (metis shuffle_from_mset shuffle_from_world order_refl prod.collapse)

lemma np_random_shuffleD:
  "np_random_shuffle xs w = (ys, w1) \<Longrightarrow>
     w1 = w\<lparr>drawn := drawn w + (length xs - 1)\<rparr> \<and> mset ys = mset xs"
  using np_random_shuffle_eq [of xs w] by auto

subsection \<open>Phase 1\<close>

lemma same_environment_refl [simp]: "same_environment w w"
  by (simp add: same_environment_def)

lemma same_environment_trans:
  "same_environment w w1 \<Longrightarrow> same_environment w1 w2 \<Longrightarrow> same_environment w w2"
  by (simp add: same_environment_def)

lemma phase1_frame:
  "phase1 B k q i raws buffers w = (r, w') \<Longrightarrow>
     same_environment w w' \<and> written w' = written w \<and> trace w' = trace w \<and>
     r \<noteq> Inl InvalidAlgorithm"
proof (induction raws arbitrary: i buffers w)
  case Nil
  then show ?case by auto
next
  case (Cons raw rest)
  show ?case
  proof (cases "read_ok w i")
    case False
    with Cons.prems show ?thesis by auto
  next
    case True
    show ?thesis
    proof (cases "reshape k raw")
      case (Inl e)
      with True Cons.prems show ?thesis
        by (auto simp: reshape_def split: if_splits)
    next
      case (Inr block)
      obtain block' w1 where sh: "np_random_shuffle block w = (block', w1)"
        by (cases "np_random_shuffle block w")
      then have w1: "w1 = w\<lparr>drawn := drawn w + (length block - 1)\<rparr>"
        by (auto dest: np_random_shuffleD)
      show ?thesis
      proof (cases "scratch_ok w i")
        case False
        with True Inr sh w1 Cons.prems show ?thesis
          by (auto simp: write_block_def same_environment_def)
      next
        case ok: True
        define w2 where "w2 = w1\<lparr>scratch := (scratch w1)(i \<mapsto> block')\<rparr>"
        have wb: "write_block i block' w1 = (Inr (), w2)"
          using ok w1 by (simp add: write_block_def w2_def)
        have env: "same_environment w w2" "written w2 = written w" "trace w2 = trace w"
          by (simp_all add: w2_def w1 same_environment_def)
        show ?thesis
        proof (cases "floor_div B q")
          case (Inl e)
          with True Inr sh wb Cons.prems env show ?thesis
            by (auto simp: floor_div_def split: if_splits)
        next
          case c: (Inr chunk_size)
          have gb: "get_block_buffer i chunk_size (B, k) w2 =
                      (Inr \<lparr>unread = block', chunk = chunk_size\<rparr>, w2)"
            by (simp add: get_block_buffer_def w2_def)
          from True Inr sh wb c gb Cons.prems
          have "phase1 B k q (Suc i) rest (buffers @ [\<lparr>unread = block', chunk = chunk_size\<rparr>]) w2
                  = (r, w')"
            by simp
          from Cons.IH [OF this] env show ?thesis
            by (auto simp: same_environment_def)
        qed
      qed
    qed
  qed
qed



subsection \<open>Phase 2\<close>

lemma cursor_measure_simps [simp]:
  "cursor_measure [] = 0"
  "cursor_measure (b # bs) = Suc (length (unread b)) + cursor_measure bs"
  "cursor_measure (bs @ cs) = cursor_measure bs + cursor_measure cs"
  by (simp_all add: cursor_measure_def)


lemma next_chunk_Some:
  "next_chunk b = Some (block, b') \<Longrightarrow>
     block = take (chunk b) (unread b) \<and> b' = b\<lparr>unread := drop (chunk b) (unread b)\<rparr> \<and>
     unread b \<noteq> []"
  by (auto simp: next_chunk_def split: if_splits)

lemma next_chunk_advances:
  "next_chunk b = Some (block, b') \<Longrightarrow> 0 < chunk b \<Longrightarrow> length (unread b') < length (unread b)"
  by (auto dest!: next_chunk_Some)

lemma pull_chunks_measure:
  "pull_chunks bs cur rem = (cur', rem') \<Longrightarrow> \<forall>b \<in> set bs. 0 < chunk b \<Longrightarrow>
     cursor_measure rem' + length bs \<le> cursor_measure rem + cursor_measure bs"
proof (induction bs arbitrary: cur rem)
  case Nil
  then show ?case by simp
next
  case (Cons b bs)
  have bs: "\<forall>b \<in> set bs. 0 < chunk b" and b: "0 < chunk b"
    using Cons.prems(2) by simp_all
  show ?case
  proof (cases "next_chunk b")
    case None
    with Cons.prems(1) have "pull_chunks bs cur rem = (cur', rem')" by simp
    from Cons.IH [OF this bs] show ?thesis by simp
  next
    case (Some p)
    obtain block b' where p: "p = (block, b')" by (cases p)
    from Some p b have adv: "length (unread b') < length (unread b)"
      by (simp add: next_chunk_advances)
    from Cons.prems(1) Some p
    have "pull_chunks bs (Some (case cur of None \<Rightarrow> block | Some cb \<Rightarrow> cb @ block)) (rem @ [b'])
            = (cur', rem')"
      by simp
    from Cons.IH [OF this bs] adv show ?thesis by simp
  qed
qed


lemma pull_chunks_positive:
  "pull_chunks bs cur rem = (cur', rem') \<Longrightarrow>
     \<forall>b \<in> set bs. 0 < chunk b \<Longrightarrow> \<forall>b \<in> set rem. 0 < chunk b \<Longrightarrow>
     \<forall>b \<in> set rem'. 0 < chunk b"
proof (induction bs arbitrary: cur rem)
  case Nil
  then show ?case by simp
next
  case (Cons b bs)
  have bs: "\<forall>b \<in> set bs. 0 < chunk b" and b: "0 < chunk b"
    using Cons.prems(2) by simp_all
  show ?case
  proof (cases "next_chunk b")
    case None
    with Cons.prems(1) have "pull_chunks bs cur rem = (cur', rem')" by simp
    from Cons.IH [OF this bs Cons.prems(3)] show ?thesis .
  next
    case (Some p)
    obtain block b' where p: "p = (block, b')" by (cases p)
    from Some p have "chunk b' = chunk b" by (auto dest!: next_chunk_Some)
    with b Cons.prems(3) have rem: "\<forall>x \<in> set (rem @ [b']). 0 < chunk x" by simp
    from Cons.prems(1) Some p
    have "pull_chunks bs (Some (case cur of None \<Rightarrow> block | Some cb \<Rightarrow> cb @ block)) (rem @ [b'])
            = (cur', rem')"
      by simp
    from Cons.IH [OF this bs rem] show ?thesis .
  qed
qed

text \<open>
  Cursors of chunk size \<open>0\<close> over slots with rows all yield an empty chunk and stay as
  they are.
\<close>

lemma pull_chunks_stuck:
  "\<forall>b \<in> set bs. chunk b = 0 \<and> unread b \<noteq> [] \<Longrightarrow> bs \<noteq> [] \<Longrightarrow>
     pull_chunks bs cur rem = (Some (block_rows cur), rem @ bs)"
proof (induction bs arbitrary: cur rem)
  case Nil
  then show ?case by simp
next
  case (Cons b bs)
  from Cons.prems have nc: "next_chunk b = Some ([], b)"
    by (simp add: next_chunk_def)
  show ?case
  proof (cases "bs = []")
    case True
    with nc show ?thesis
      by (simp add: block_rows_def split: option.splits)
  next
    case False
    with Cons have "pull_chunks bs (Some (block_rows cur)) (rem @ [b]) =
                      (Some (block_rows (Some (block_rows cur))), (rem @ [b]) @ bs)"
      by simp
    with nc show ?thesis
      by (simp add: block_rows_def split: option.splits)
  qed
qed

lemma merge_round_measure:
  assumes "merge_round buffers w = (Inr remaining, w')" and "buffers \<noteq> []"
    and "\<forall>b \<in> set buffers. 0 < chunk b"
  shows "cursor_measure remaining < cursor_measure buffers"
proof -
  obtain cur rem where pc: "pull_chunks buffers None [] = (cur, rem)"
    by (cases "pull_chunks buffers None []")
  from pull_chunks_measure [OF pc assms(3)] assms(2)
  have "cursor_measure rem < cursor_measure buffers"
    by (cases buffers) auto
  moreover from assms(1) pc have "remaining = rem"
    by (auto simp: merge_round_def split: option.splits prod.splits sum.splits)
  ultimately show ?thesis by simp
qed

lemma merge_round_frame:
  assumes "merge_round buffers w = (r, w')"
  shows "same_environment w w' \<and> scratch w' = scratch w \<and>
         trace w' = trace w @ [MergeRound (length buffers)] \<and> r \<noteq> Inl InvalidAlgorithm"
proof -
  obtain cur rem where pc: "pull_chunks buffers None [] = (cur, rem)"
    by (cases "pull_chunks buffers None []")
  show ?thesis
  proof (cases cur)
    case None
    with assms pc show ?thesis
      by (auto simp: merge_round_def log_call_def same_environment_def)
  next
    case (Some cb)
    obtain cb' w1 where sh:
      "np_random_shuffle cb (log_call (MergeRound (length buffers)) w) = (cb', w1)"
      by (cases "np_random_shuffle cb (log_call (MergeRound (length buffers)) w)")
    then have w1: "w1 = (log_call (MergeRound (length buffers)) w)
                     \<lparr>drawn := drawn (log_call (MergeRound (length buffers)) w) + (length cb - 1)\<rparr>"
      by (auto dest: np_random_shuffleD)
    from assms pc Some sh show ?thesis
      by (auto simp: merge_round_def writer_write_def w1 log_call_def same_environment_def
          split: if_splits)
  qed
qed


lemma merge_round_hands_over:
  assumes "\<forall>i. write_ok w i"
  shows "\<exists>remaining w'. merge_round buffers w = (Inr remaining, w')"
proof -
  obtain cur rem where pc: "pull_chunks buffers None [] = (cur, rem)"
    by (cases "pull_chunks buffers None []")
  show ?thesis
  proof (cases cur)
    case None
    with pc show ?thesis by (simp add: merge_round_def)
  next
    case (Some cb)
    obtain cb' w1 where sh:
      "np_random_shuffle cb (log_call (MergeRound (length buffers)) w) = (cb', w1)"
      by (cases "np_random_shuffle cb (log_call (MergeRound (length buffers)) w)")
    then have w1: "w1 = (log_call (MergeRound (length buffers)) w)
                     \<lparr>drawn := drawn (log_call (MergeRound (length buffers)) w) + (length cb - 1)\<rparr>"
      by (auto dest: np_random_shuffleD)
    have "writer_write cb' w1 = (Inr (), w1\<lparr>written := written w1 @ [cb']\<rparr>)"
      using assms by (simp add: writer_write_def w1 log_call_def)
    with pc Some sh show ?thesis by (simp add: merge_round_def)
  qed
qed

lemma merge_round_positive:
  assumes "merge_round buffers w = (Inr remaining, w')" and "\<forall>b \<in> set buffers. 0 < chunk b"
  shows "\<forall>b \<in> set remaining. 0 < chunk b"
proof -
  obtain cur rem where pc: "pull_chunks buffers None [] = (cur, rem)"
    by (cases "pull_chunks buffers None []")
  from pull_chunks_positive [OF pc assms(2)]
  have "\<forall>b \<in> set rem. 0 < chunk b" by simp
  moreover from assms(1) pc have "remaining = rem"
    by (auto simp: merge_round_def split: option.splits prod.splits sum.splits)
  ultimately show ?thesis by simp
qed

lemma phase2_induct [consumes 1, case_names empty round]:
  assumes "\<forall>b \<in> set buffers. 0 < chunk b"
    and "\<And>w. P [] w"
    and "\<And>buffers w. buffers \<noteq> [] \<Longrightarrow> \<forall>b \<in> set buffers. 0 < chunk b \<Longrightarrow>
           (\<And>remaining w'. merge_round buffers w = (Inr remaining, w') \<Longrightarrow> P remaining w') \<Longrightarrow>
           P buffers w"
  shows "P buffers w"
proof -
  have "(\<forall>b \<in> set buffers. 0 < chunk b) \<longrightarrow> (\<forall>w. P buffers w)"
  proof (induction buffers rule: measure_induct_rule [of cursor_measure])
    case (less buffers)
    show ?case
    proof (intro impI allI)
      fix w
      assume pos: "\<forall>b \<in> set buffers. 0 < chunk b"
      show "P buffers w"
      proof (cases "buffers = []")
        case True
        then show ?thesis by (simp add: assms(2))
      next
        case False
        have "P remaining w'" if mr: "merge_round buffers w = (Inr remaining, w')"
          for remaining w'
          using less.IH [OF merge_round_measure [OF mr False pos]]
            merge_round_positive [OF mr pos]
          by blast
        with False pos show ?thesis by (rule assms(3))
      qed
    qed
  qed
  with assms(1) show ?thesis by blast
qed

lemma phase2_returns:
  "\<forall>b \<in> set buffers. 0 < chunk b \<Longrightarrow> \<exists>r w'. phase2 buffers w = Some (r, w')"
proof (induction buffers w rule: phase2_induct)
  case (empty w)
  then show ?case by (simp add: phase2.simps)
next
  case (round buffers w)
  obtain r w1 where mr: "merge_round buffers w = (r, w1)"
    by (cases "merge_round buffers w")
  show ?case
  proof (cases r)
    case (Inl e)
    with mr round(1) show ?thesis by (subst phase2.simps) simp
  next
    case (Inr remaining)
    with mr round show ?thesis by (subst phase2.simps) simp
  qed
qed

lemma phase2_frame:
  assumes "phase2 buffers w = Some y"
  shows "same_environment w (snd y) \<and> scratch (snd y) = scratch w \<and>
         (\<exists>ks. trace (snd y) = trace w @ map MergeRound ks) \<and> fst y \<noteq> Inl InvalidAlgorithm"
  using assms
proof (induction rule: phase2.raw_induct [rotated 1, consumes 1, case_names step])
  case (step phase2' buffers w y)
  show ?case
  proof (cases "buffers = []")
    case True
    with step(2) have "y = (Inr (), w)" by simp
    then show ?thesis by simp
  next
    case False
    obtain r1 w1 where mr: "merge_round buffers w = (r1, w1)"
      by (cases "merge_round buffers w")
    note fr = merge_round_frame [OF mr]
    show ?thesis
    proof (cases r1)
      case (Inl e)
      with mr step(2) False have "y = (Inl e, w1)" by simp
      with fr Inl show ?thesis
        by (auto intro: exI [of _ "[length buffers]"])
    next
      case (Inr remaining)
      with mr step(2) False have "phase2' remaining w1 = Some y" by simp
      from step(1) [OF this] obtain ks where
        "same_environment w1 (snd y)" "scratch (snd y) = scratch w1"
        "trace (snd y) = trace w1 @ map MergeRound ks" "fst y \<noteq> Inl InvalidAlgorithm"
        by blast
      with fr show ?thesis
        by (auto intro: same_environment_trans exI [of _ "length buffers # ks"])
    qed
  qed
qed




text \<open>
  With a writer that does not fail, the loop is never left when every cursor has chunk
  size \<open>0\<close> and rows to yield: each round writes an empty block and keeps the cursors
  as they are.
\<close>

lemma phase2_stuck:
  assumes "phase2 buffers w = Some y"
  shows "\<not> (buffers \<noteq> [] \<and> (\<forall>b \<in> set buffers. chunk b = 0 \<and> unread b \<noteq> []) \<and>
            (\<forall>i. write_ok w i))"
  using assms
proof (induction rule: phase2.raw_induct [rotated 1, consumes 1, case_names step])
  case (step phase2' buffers w y)
  show ?case
  proof
    assume a: "buffers \<noteq> [] \<and> (\<forall>b \<in> set buffers. chunk b = 0 \<and> unread b \<noteq> []) \<and>
               (\<forall>i. write_ok w i)"
    then have pc: "pull_chunks buffers None [] = (Some [], buffers)"
      using pull_chunks_stuck [of buffers None "[]"] by (simp add: block_rows_def)
    from a merge_round_hands_over [of w buffers]
    obtain remaining w1 where mr: "merge_round buffers w = (Inr remaining, w1)"
      by blast
    with pc have "remaining = buffers"
      by (auto simp: merge_round_def split: prod.splits sum.splits)
    with mr step(2) a have "phase2' buffers w1 = Some y" by simp
    moreover from merge_round_frame [OF mr] a have "\<forall>i. write_ok w1 i"
      by (simp add: same_environment_def)
    ultimately show False using step(1) a by blast
  qed
qed

lemma phase2_diverges:
  "buffers \<noteq> [] \<Longrightarrow> \<forall>b \<in> set buffers. chunk b = 0 \<and> unread b \<noteq> [] \<Longrightarrow>
     \<forall>i. write_ok w i \<Longrightarrow> phase2 buffers w = None"
  using phase2_stuck [of buffers w] by (cases "phase2 buffers w") auto

section \<open>Runs of the shuffle\<close>



lemma length_chunks: "0 < k \<Longrightarrow> length xs = n * k \<Longrightarrow> length (chunks k xs) = n"
proof (induction n arbitrary: xs)
  case 0
  then show ?case by simp
next
  case (Suc n)
  then have "xs \<noteq> []" by auto
  moreover from Suc.prems have "length (drop k xs) = n * k" by simp
  ultimately show ?case using Suc by (simp add: chunks_step)
qed



text \<open>
  The body of the \<^verbatim>\<open>with\<close> statement constructs the writer and the reader, runs the
  two phases, and never raises \<open>InvalidAlgorithm\<close>.
\<close>

lemma shuffle_body_frame:
  assumes "shuffle_body dtype q d B path w = Some (r, w')"
  shows "r \<noteq> Inl InvalidAlgorithm \<and> same_environment w w' \<and>
     (\<exists>ks. trace w' = trace w @ [NewBlockWriter dtype B path, NewBlockBuffer dtype B path (B, d + 1)]
                  @ map MergeRound ks)"
proof -
  define w2 where "w2 = log_call (NewBlockBuffer dtype B path (B, d + 1))
                          (log_call (NewBlockWriter dtype B path) w)"
  have w2: "same_environment w w2"
    "trace w2 = trace w @ [NewBlockWriter dtype B path, NewBlockBuffer dtype B path (B, d + 1)]"
    by (simp_all add: w2_def log_call_def same_environment_def)
  obtain r1 w3 where p1:
    "phase1 B (d + 1) q 0 (BlockBuffer_blocks B (B, d + 1) (dataset w2)) [] w2 = (r1, w3)"
    by (cases "phase1 B (d + 1) q 0 (BlockBuffer_blocks B (B, d + 1) (dataset w2)) [] w2")
  note f1 = phase1_frame [OF p1]
  show ?thesis
  proof (cases r1)
    case (Inl e)
    with p1 assms have "r = Inl e" "w' = w3"
      by (simp_all add: shuffle_body_def Let_def w2_def)
    with f1 w2 Inl show ?thesis
      by (auto intro: same_environment_trans exI [of _ "[]"])
  next
    case (Inr buffers)
    with p1 assms have p2: "phase2 buffers w3 = Some (r, w')"
      by (simp add: shuffle_body_def Let_def w2_def)
    from phase2_frame [OF p2] obtain ks where
      f2: "same_environment w3 w'" "trace w' = trace w3 @ map MergeRound ks"
        "r \<noteq> Inl InvalidAlgorithm"
      by auto
    with f1 w2 show ?thesis
      by (auto intro: same_environment_trans)
  qed
qed

text \<open>
  A run with a block size of \<open>0\<close> raises at line 76. A run with a positive block size
  enters the scope, runs the body and leaves the scope: when it ends, its outcome is
  the outcome of the body, and its calls are those of the three constructors followed
  by the rounds of the merge loop.
\<close>

lemma external_shuffle_zero:
  "external_shuffle dtype n d 0 path w = Some (Inl ZeroDivisionError, w)"
  by (simp add: external_shuffle_def true_div_def)

lemma external_shuffle_body:
  assumes "0 < B"
  shows "external_shuffle dtype n d B path w =
           (case shuffle_body dtype (of_nat n / of_nat B) d B path
                   (scope_enter ''float64'' ''samplesort'' B w) of
              None \<Rightarrow> None
            | Some (r, w1) \<Rightarrow> Some (r, scope_exit w1))"
  using assms by (simp add: external_shuffle_def true_div_def with_BlockScope_def)

lemma external_shuffle_scoped:
  assumes "0 < B" and "external_shuffle dtype n d B path w = Some (r, w')"
  shows "\<exists>w1 ks.
           shuffle_body dtype (of_nat n / of_nat B) d B path
             (scope_enter ''float64'' ''samplesort'' B w) = Some (r, w1) \<and>
           w' = scope_exit w1 \<and> r \<noteq> Inl InvalidAlgorithm \<and>
           trace w1 = trace w @
             [NewBlockScope ''float64'' ''samplesort'' B, NewBlockWriter dtype B path,
              NewBlockBuffer dtype B path (B, d + 1)] @ map MergeRound ks"
proof -
  from assms obtain w1 where
    body: "shuffle_body dtype (of_nat n / of_nat B) d B path
             (scope_enter ''float64'' ''samplesort'' B w) = Some (r, w1)"
    and w': "w' = scope_exit w1"
    by (auto simp: external_shuffle_body split: option.splits)
  from shuffle_body_frame [OF body] obtain ks where
    "r \<noteq> Inl InvalidAlgorithm"
    "trace w1 = trace (scope_enter ''float64'' ''samplesort'' B w) @
       [NewBlockWriter dtype B path, NewBlockBuffer dtype B path (B, d + 1)] @ map MergeRound ks"
    by blast
  moreover have "trace (scope_enter ''float64'' ''samplesort'' B w) =
                   trace w @ [NewBlockScope ''float64'' ''samplesort'' B]"
    by (simp add: scope_enter_def log_call_def)
  ultimately show ?thesis using body w' by auto
qed

lemma external_shuffle_outcome:
  assumes "external_shuffle dtype n d B path w = Some (r, w')"
  shows "r \<noteq> Inl InvalidAlgorithm"
proof (cases "B = 0")
  case True
  with assms show ?thesis by (auto simp: external_shuffle_zero)
next
  case False
  then have "0 < B" by simp
  from external_shuffle_scoped [OF this assms] show ?thesis by blast
qed





section \<open>The claims\<close>

text \<open>
  C5. Selecting \<^verbatim>\<open>'external_sort'\<close> runs the stub \<^verbatim>\<open>external_sort\<close> and nothing of
  \<^verbatim>\<open>external_shuffle\<close>: the call returns normally and leaves the world as it was, so
  nothing is read, nothing written, no helper constructed, no output produced (the file
  at \<^verbatim>\<open>train_path\<close> is the dataset as before).
\<close>

theorem external_sort_is_a_stub:
  "shuffle_train ''external_sort'' dtype n num_features num_per_block train_path w =
     external_sort dtype n num_per_block num_features train_path w \<and>
   shuffle_train ''external_sort'' dtype n num_features num_per_block train_path w =
     Some (Inr (), w)"
  by (simp add: shuffle_train_def ALGORITHMS_def external_sort_def)

theorem external_sort_is_a_stub_witness:
  "run_report (shuffle_train ''external_sort'' ''float64'' 4 1 2 ''train''
     (initial_world [1, 2, 3, 4, 5, 6, 7, 8 :: nat] (constant_gen 0))) =
     Some (Inr (), [], [1, 2, 3, 4, 5, 6, 7, 8])"
  using external_sort_is_a_stub [THEN conjunct2, of "''float64''" 4 1 2 "''train''"
      "initial_world [1, 2, 3, 4, 5, 6, 7, 8 :: nat] (constant_gen 0)"]
  by (simp add: run_report_def initial_world_def output_file_def)
text \<open>
  C6. An algorithm name outside \<open>ALGORITHMS\<close> makes \<^verbatim>\<open>shuffle_train\<close> fail with
  \<open>InvalidAlgorithm\<close> at once, with the world untouched (no I/O has begun); with a
  recognised name the call never ends with \<open>InvalidAlgorithm\<close>.
\<close>

theorem shuffle_train_invalid_algorithm:
  "(algorithm \<notin> set ALGORITHMS \<longrightarrow>
      shuffle_train algorithm dtype n num_features num_per_block train_path w =
        Some (Inl InvalidAlgorithm, w)) \<and>
   (algorithm \<in> set ALGORITHMS \<longrightarrow>
      (\<forall>w'. shuffle_train algorithm dtype n num_features num_per_block train_path w \<noteq>
              Some (Inl InvalidAlgorithm, w')))"
proof (intro conjI impI allI)
  assume "algorithm \<notin> set ALGORITHMS"
  then show "shuffle_train algorithm dtype n num_features num_per_block train_path w =
               Some (Inl InvalidAlgorithm, w)"
    by (simp add: shuffle_train_def)
next
  fix w'
  assume known: "algorithm \<in> set ALGORITHMS"
  show "shuffle_train algorithm dtype n num_features num_per_block train_path w \<noteq>
          Some (Inl InvalidAlgorithm, w')"
  proof (cases "algorithm = ''external_sort''")
    case True
    then show ?thesis
      by (simp add: shuffle_train_def ALGORITHMS_def external_sort_def)
  next
    case False
    with known have "shuffle_train algorithm dtype n num_features num_per_block train_path w =
                       external_shuffle dtype n num_per_block num_features train_path w"
      by (simp add: shuffle_train_def)
    then show ?thesis
      using external_shuffle_outcome [of dtype n num_per_block num_features train_path w
          "Inl InvalidAlgorithm" w']
      by auto
  qed
qed

theorem shuffle_train_invalid_algorithm_witness:
  "''quick_shuffle'' \<notin> set ALGORITHMS \<and>
   shuffle_train ''quick_shuffle'' ''float64'' 4 1 2 ''train''
     (initial_world [1, 2, 3, 4, 5, 6, 7, 8 :: nat] (constant_gen 0)) =
     Some (Inl InvalidAlgorithm, initial_world [1, 2, 3, 4, 5, 6, 7, 8] (constant_gen 0)) \<and>
   ''external_shuffle'' \<in> set ALGORITHMS \<and>
   map_option fst (shuffle_train ''external_shuffle'' ''float64'' 4 2 2 ''train''
     (initial_world [1, 2, 3, 4, 5, 6, 7, 8, 9, 10, 11, 12 :: nat] (constant_gen 0))) =
     Some (Inr ()) \<and>
   (\<forall>w'. shuffle_train ''external_shuffle'' ''float64'' 4 2 2 ''train''
            (initial_world [1, 2, 3, 4, 5, 6, 7, 8, 9, 10, 11, 12 :: nat] (constant_gen 0)) \<noteq>
          Some (Inl InvalidAlgorithm, w'))"
proof -
  have r: "map_option fst (shuffle_train ''external_shuffle'' ''float64'' 4 2 2 ''train''
             (initial_world [1, 2, 3, 4, 5, 6, 7, 8, 9, 10, 11, 12 :: nat] (constant_gen 0))) =
           Some (Inr ())"
    by code_simp
  show ?thesis
    using shuffle_train_invalid_algorithm [of "''quick_shuffle''" "''float64''" 4 1 2 "''train''"
        "initial_world [1, 2, 3, 4, 5, 6, 7, 8 :: nat] (constant_gen 0)"]
      shuffle_train_invalid_algorithm [of "''external_shuffle''" "''float64''" 4 2 2 "''train''"
        "initial_world [1, 2, 3, 4, 5, 6, 7, 8, 9, 10, 11, 12 :: nat] (constant_gen 0)"] r
    by (simp add: ALGORITHMS_def)
qed


text \<open>
  C2 at a concrete call. \<^verbatim>\<open>shuffle_train\<close> is asked to shuffle a file of four samples
  of five features and a label (24 values) in blocks of two samples. The reader is
  constructed with a block size of 5 and rows of 3 values, the values given as
  \<open>num_features\<close> and \<open>num_per_block + 1\<close>, and the output file is a permutation of
  pieces of 3 values, in which samples of the input are torn apart. The second equation
  is the run that the same configuration gives when each value reaches the parameter of
  its name: blocks of 2 samples of 6 values, and an output made of the input's samples.
\<close>

theorem shuffle_train_swaps_arguments:
  "run_report (shuffle_train ''external_shuffle'' ''float64'' 4 5 2 ''train''
     (initial_world [1, 2, 3, 4, 5, 6, 7, 8, 9, 10, 11, 12, 13, 14, 15, 16, 17, 18, 19, 20,
        21, 22, 23, 24 :: nat] (constant_gen 0))) =
   Some (Inr (),
     [NewBlockScope ''float64'' ''samplesort'' 5, NewBlockWriter ''float64'' 5 ''train'',
      NewBlockBuffer ''float64'' 5 ''train'' (5, 3), MergeRound 2, MergeRound 2],
     [7, 8, 9, 10, 11, 12, 13, 14, 15, 1, 2, 3, 19, 20, 21, 22, 23, 24, 16, 17, 18, 4, 5, 6]) \<and>
   run_report (external_shuffle ''float64'' 4 5 2 ''train''
     (initial_world [1, 2, 3, 4, 5, 6, 7, 8, 9, 10, 11, 12, 13, 14, 15, 16, 17, 18, 19, 20,
        21, 22, 23, 24 :: nat] (constant_gen 0))) =
   Some (Inr (),
     [NewBlockScope ''float64'' ''samplesort'' 2, NewBlockWriter ''float64'' 2 ''train'',
      NewBlockBuffer ''float64'' 2 ''train'' (2, 6), MergeRound 2, MergeRound 2, MergeRound 2],
     [19, 20, 21, 22, 23, 24, 7, 8, 9, 10, 11, 12, 13, 14, 15, 16, 17, 18, 1, 2, 3, 4, 5, 6])"
  by code_simp
text \<open>
  C4 as stated fails: with \<open>n = samples_per_block = 2\<close> the merge loop runs two rounds,
  each starting with one active cursor.
\<close>

theorem single_block_two_rounds:
  "run_report (external_shuffle ''float64'' 2 0 2 ''train''
     (initial_world [1, 2 :: nat] (constant_gen 1))) =
   Some (Inr (),
     [NewBlockScope ''float64'' ''samplesort'' 2, NewBlockWriter ''float64'' 2 ''train'',
      NewBlockBuffer ''float64'' 2 ''train'' (2, 1), MergeRound 1, MergeRound 1],
     [1, 2])"
  by code_simp

text \<open>
  C4, amended. When the file holds \<open>n \<ge> 1\<close> samples and \<open>n = samples_per_block\<close>,
  a run without I/O failure returns normally after exactly two rounds of the merge loop,
  each starting with one active cursor: the first pulls the whole slot and emits it in a
  single write, the second finds the cursor exhausted and writes nothing. The block
  written is the in-memory shuffle (Phase 2) of the in-memory shuffle (Phase 1) of the
  whole dataset, a permutation of all \<open>n\<close> samples.
\<close>

theorem single_block_shuffle:
  fixes w :: "'a world"
  assumes len: "length (dataset w) = n * (num_features + 1)" and n: "0 < n"
    and empty: "written w = []"
    and env: "\<forall>i. read_ok w i" "\<forall>i. scratch_ok w i" "\<forall>i. write_ok w i"
  shows "\<exists>w' (wa :: 'a world) (wb :: 'a world) block.
           external_shuffle dtype n num_features n train_path w = Some (Inr (), w') \<and>
           merge_rounds (run_trace w w') = [1, 1] \<and>
           written w' = [block] \<and>
           block = fst (np_random_shuffle
                     (fst (np_random_shuffle (samples num_features (dataset w)) wa)) wb) \<and>
           mset block = mset (samples num_features (dataset w))"
proof -
  define k where "k = num_features + 1"
  define q :: rat where "q = of_nat n / of_nat n"
  define rows0 where "rows0 = samples num_features (dataset w)"
  define w2 where "w2 = log_call (NewBlockBuffer dtype n train_path (n, num_features + 1))
    (log_call (NewBlockWriter dtype n train_path) (scope_enter ''float64'' ''samplesort'' n w))"
  have k: "0 < k" by (simp add: k_def)
  have len': "length (dataset w) = n * k" using len by (simp add: k_def)
  with n k have ne: "dataset w \<noteq> []" by auto
  have w2: "dataset w2 = dataset w" "written w2 = []" "read_ok w2 0" "scratch_ok w2 0"
    "\<forall>i. write_ok w2 i"
    "trace w2 = trace w @ [NewBlockScope ''float64'' ''samplesort'' n,
       NewBlockWriter dtype n train_path,
       NewBlockBuffer dtype n train_path (n, num_features + 1)]"
    using env empty by (simp_all add: w2_def log_call_def scope_enter_def)
  have raws: "BlockBuffer_blocks n (n, num_features + 1) (dataset w2) = [dataset w]"
    unfolding BlockBuffer_blocks_def w2(1) snd_conv
    using ne len by (intro chunks_whole) simp_all
  have md: "length (dataset w) mod k = 0" by (simp add: len')
  have rs: "reshape k (dataset w) = Inr rows0"
    unfolding reshape_def rows0_def samples_def k_def [symmetric] using md by simp
  have l0: "length rows0 = n"
    unfolding rows0_def samples_def using k len' by (intro length_chunks) (simp_all add: k_def)
  obtain block1 w2a where s1: "np_random_shuffle rows0 w2 = (block1, w2a)"
    by (cases "np_random_shuffle rows0 w2")
  then have w2a: "w2a = w2\<lparr>drawn := drawn w2 + (length rows0 - 1)\<rparr>"
    and m1: "mset block1 = mset rows0"
    by (auto dest: np_random_shuffleD)
  from m1 l0 have l1: "length block1 = n" by (metis mset_eq_length)
  define w3 where "w3 = w2a\<lparr>scratch := (scratch w2a)(0 \<mapsto> block1)\<rparr>"
  define cur where "cur = \<lparr>unread = block1, chunk = n\<rparr>"
  have wb: "write_block 0 block1 w2a = (Inr (), w3)"
    using w2(4) by (simp add: write_block_def w3_def w2a)
  have fd: "floor_div n q = Inr n"
    using n by (simp add: floor_div_def q_def)
  have td: "true_div n n = Inr q"
    using n by (simp add: true_div_def q_def)
  have gb: "get_block_buffer 0 n (n, k) w3 = (Inr cur, w3)"
    by (simp add: get_block_buffer_def w3_def cur_def)
  have p1: "phase1 n k q 0 [dataset w] [] w2 = (Inr [cur], w3)"
    using w2(3) rs s1 wb fd gb by simp
  have w3: "written w3 = []" "\<forall>i. write_ok w3 i" "trace w3 = trace w2"
    using w2 by (simp_all add: w3_def w2a)
  define w4 where "w4 = log_call (MergeRound 1) w3"
  obtain block2 w4a where s2: "np_random_shuffle block1 w4 = (block2, w4a)"
    by (cases "np_random_shuffle block1 w4")
  then have w4a: "w4a = w4\<lparr>drawn := drawn w4 + (length block1 - 1)\<rparr>"
    and m2: "mset block2 = mset block1"
    by (auto dest: np_random_shuffleD)
  define w5 where "w5 = w4a\<lparr>written := [block2]\<rparr>"
  define w6 where "w6 = log_call (MergeRound 1) w5"
  have nc: "next_chunk cur = Some (block1, cur\<lparr>unread := []\<rparr>)"
    using l1 n by (auto simp: next_chunk_def cur_def)
  have nc': "next_chunk (cur\<lparr>unread := []\<rparr>) = None"
    by (simp add: next_chunk_def)
  have ww: "writer_write block2 w4a = (Inr (), w5)"
    using w3 by (simp add: writer_write_def w5_def w4a w4_def log_call_def)
  have r1: "merge_round [cur] w3 = (Inr [cur\<lparr>unread := []\<rparr>], w5)"
    using nc s2 ww by (simp add: merge_round_def w4_def)
  have r2: "merge_round [cur\<lparr>unread := []\<rparr>] w5 = (Inr [], w6)"
    using nc' by (simp add: merge_round_def w6_def)
  have p2: "phase2 [cur] w3 = Some (Inr (), w6)"
    by (simp add: phase2.simps [of "[cur]"] phase2.simps [of "[cur\<lparr>unread := []\<rparr>]"]
        phase2.simps [of "[]"] r1 r2)
  have "shuffle_body dtype q num_features n train_path
          (scope_enter ''float64'' ''samplesort'' n w) =
        (case phase1 n (snd (n, num_features + 1)) q 0
                (BlockBuffer_blocks n (n, num_features + 1) (dataset w2)) [] w2 of
           (Inl e, w3) \<Rightarrow> Some (Inl e, w3)
         | (Inr buffers, w3) \<Rightarrow> phase2 buffers w3)"
    by (simp only: shuffle_body_def Let_def w2_def)
  also have "\<dots> = Some (Inr (), w6)"
    by (simp only: snd_conv k_def [symmetric] raws [folded k_def] p1 prod.case sum.case p2)
  finally have body: "shuffle_body dtype q num_features n train_path
                        (scope_enter ''float64'' ''samplesort'' n w) = Some (Inr (), w6)" .
  have run: "external_shuffle dtype n num_features n train_path w = Some (Inr (), scope_exit w6)"
    by (simp only: external_shuffle_def td sum.case with_BlockScope_def body option.case
        prod.case)
  have tr: "trace (scope_exit w6) = trace w @
              [NewBlockScope ''float64'' ''samplesort'' n, NewBlockWriter dtype n train_path,
               NewBlockBuffer dtype n train_path (n, num_features + 1),
               MergeRound 1, MergeRound 1]"
    by (simp add: scope_exit_def w6_def w5_def w4a w4_def log_call_def w3(3) w2(6))
  have rounds: "merge_rounds (run_trace w (scope_exit w6)) = [1, 1]"
    by (simp add: run_trace_def tr)
  have wr: "written (scope_exit w6) = [block2]"
    by (simp add: scope_exit_def w6_def w5_def log_call_def)
  have b2: "block2 = fst (np_random_shuffle
                (fst (np_random_shuffle (samples num_features (dataset w)) w2)) w4)"
    using s1 s2 by (simp add: rows0_def)
  have m: "mset block2 = mset (samples num_features (dataset w))"
    using m1 m2 by (simp add: rows0_def)
  show ?thesis
  proof (intro exI conjI)
    show "external_shuffle dtype n num_features n train_path w = Some (Inr (), scope_exit w6)"
      by (rule run)
    show "merge_rounds (run_trace w (scope_exit w6)) = [1, 1]" by (rule rounds)
    show "written (scope_exit w6) = [block2]" by (rule wr)
    show "block2 = fst (np_random_shuffle
            (fst (np_random_shuffle (samples num_features (dataset w)) w2)) w4)"
      by (rule b2)
    show "mset block2 = mset (samples num_features (dataset w))" by (rule m)
  qed
qed

theorem single_block_shuffle_witness:
  "\<exists>w' block.
     external_shuffle ''float64'' 3 1 3 ''train''
       (initial_world [1, 2, 3, 4, 5, 6 :: nat] (constant_gen 0)) = Some (Inr (), w') \<and>
     merge_rounds (run_trace (initial_world [1, 2, 3, 4, 5, 6 :: nat] (constant_gen 0)) w') =
       [1, 1] \<and>
     written w' = [block] \<and> mset block = mset [[1, 2], [3, 4], [5, 6]]"
proof -
  have s: "samples 1 [1, 2, 3, 4, 5, 6 :: nat] = [[1, 2], [3, 4], [5, 6]]"
    by (simp add: samples_def chunks_step)
  let ?W = "initial_world [1, 2, 3, 4, 5, 6 :: nat] (constant_gen 0)"
  have d: "dataset ?W = [1, 2, 3, 4, 5, 6]" by (simp add: initial_world_def)
  have h: "length (dataset ?W) = 3 * (1 + 1)" "(0 :: nat) < 3" "written ?W = []"
    "\<forall>i. read_ok ?W i" "\<forall>i. scratch_ok ?W i" "\<forall>i. write_ok ?W i"
    by (simp_all add: initial_world_def)
  from single_block_shuffle [OF h, of "''float64''" "''train''"]
  obtain w' block where
    "external_shuffle ''float64'' 3 1 3 ''train'' ?W = Some (Inr (), w')"
    "merge_rounds (run_trace ?W w') = [1, 1]"
    "written w' = [block]"
    "mset block = mset (samples 1 (dataset ?W))"
    by blast
  then show ?thesis
    unfolding d s by blast
qed

text \<open>
  C8 as stated fails. The run of \<^verbatim>\<open>external_shuffle\<close> on ten one-value samples with a
  block size of 3 has \<open>num_buffers = 10 / 3\<close> and opens its four cursors with the chunk
  size \<open>3 // num_buffers = 0\<close>: every round of Phase 2 gets an empty chunk from every
  cursor and keeps them all, so the run never returns. The same holds for Phase 2
  started on a single cursor of chunk size \<open>0\<close> over a slot of one row.
\<close>

theorem phase2_chunk0_never_returns:
  "external_shuffle ''float64'' 10 0 3 ''train''
     (initial_world [1, 2, 3, 4, 5, 6, 7, 8, 9, 10 :: nat] (constant_gen 0)) = None \<and>
   phase2 [\<lparr>unread = [[1 :: nat]], chunk = 0\<rparr>] (initial_world [] (constant_gen 0)) = None"
proof
  let ?W = "initial_world [1, 2, 3, 4, 5, 6, 7, 8, 9, 10 :: nat] (constant_gen 0)"
  let ?w2 = "log_call (NewBlockBuffer ''float64'' 3 ''train'' (3, 0 + 1))
               (log_call (NewBlockWriter ''float64'' 3 ''train'')
                  (scope_enter ''float64'' ''samplesort'' 3 ?W))"
  let ?p1 = "phase1 3 (snd (3 :: nat, 0 + 1 :: nat)) (of_nat 10 / of_nat 3) 0
               (BlockBuffer_blocks 3 (3, 0 + 1) (dataset ?w2)) [] ?w2"
  let ?bufs = "[\<lparr>unread = [[2], [3], [1 :: nat]], chunk = 0\<rparr>,
                \<lparr>unread = [[5], [6], [4]], chunk = 0\<rparr>,
                \<lparr>unread = [[8], [9], [7]], chunk = 0\<rparr>,
                \<lparr>unread = [[10]], chunk = 0\<rparr>]"
  have f: "fst ?p1 = Inr ?bufs"
    by code_simp
  have p1: "?p1 = (Inr ?bufs, snd ?p1)"
    using f by (metis prod.collapse)
  from phase1_frame [OF p1] have "\<forall>i. write_ok (snd ?p1) i"
    by (simp add: same_environment_def log_call_def scope_enter_def initial_world_def)
  then have p2: "phase2 ?bufs (snd ?p1) = None"
    by (intro phase2_diverges) simp_all
  have "shuffle_body ''float64'' (of_nat 10 / of_nat 3) 0 3 ''train''
          (scope_enter ''float64'' ''samplesort'' 3 ?W) =
        (case ?p1 of (Inl e, w3) \<Rightarrow> Some (Inl e, w3) | (Inr buffers, w3) \<Rightarrow> phase2 buffers w3)"
    by (simp only: shuffle_body_def Let_def)
  also have "\<dots> = None"
    by (subst p1) (simp only: prod.case sum.case p2)
  finally show "external_shuffle ''float64'' 10 0 3 ''train'' ?W = None"
    by (simp add: external_shuffle_body)
next
  show "phase2 [\<lparr>unread = [[1 :: nat]], chunk = 0\<rparr>] (initial_world [] (constant_gen 0)) = None"
    by (intro phase2_diverges) (simp_all add: initial_world_def)
qed

text \<open>
  C8, amended. Phase 2 terminates for every finite collection of cursors whose chunk
  sizes are positive: the loop returns an outcome; every cursor of the collection that
  yields a chunk has strictly fewer unread rows afterwards; and every round that hands
  a collection to the next round strictly decreases the variant \<open>cursor_measure\<close>
  (unread rows plus one per active cursor), since each cursor has either advanced or
  been removed.
\<close>

theorem phase2_terminates:
  assumes "\<forall>b \<in> set buffers. 0 < chunk b"
  shows "(\<exists>r w'. phase2 buffers w = Some (r, w')) \<and>
     (\<forall>b \<in> set buffers. \<forall>block b'.
         next_chunk b = Some (block, b') \<longrightarrow> length (unread b') < length (unread b)) \<and>
     (buffers \<noteq> [] \<and> fst (merge_round buffers w) = Inr remaining \<longrightarrow>
        cursor_measure remaining < cursor_measure buffers)"
proof (intro conjI impI ballI allI)
  show "\<exists>r w'. phase2 buffers w = Some (r, w')"
    using assms by (rule phase2_returns)
next
  fix b block b'
  assume "b \<in> set buffers" and "next_chunk b = Some (block, b')"
  with assms show "length (unread b') < length (unread b)"
    by (auto intro: next_chunk_advances)
next
  assume a: "buffers \<noteq> [] \<and> fst (merge_round buffers w) = Inr remaining"
  then have "merge_round buffers w = (Inr remaining, snd (merge_round buffers w))"
    by (metis prod.collapse)
  from merge_round_measure [OF this _ assms] a
  show "cursor_measure remaining < cursor_measure buffers" by simp
qed

theorem phase2_terminates_witness:
  "(\<exists>r w'. phase2 [\<lparr>unread = [[1], [2], [3 :: nat]], chunk = 2\<rparr>, \<lparr>unread = [[4]], chunk = 2\<rparr>]
              (initial_world [] (constant_gen 0)) = Some (r, w')) \<and>
   next_chunk \<lparr>unread = [[1], [2], [3 :: nat]], chunk = 2\<rparr> =
     Some ([[1], [2]], \<lparr>unread = [[3]], chunk = 2\<rparr>) \<and>
   length (unread \<lparr>unread = [[3 :: nat]], chunk = 2\<rparr>) <
     length (unread \<lparr>unread = [[1], [2], [3 :: nat]], chunk = 2\<rparr>) \<and>
   fst (merge_round [\<lparr>unread = [[1], [2], [3 :: nat]], chunk = 2\<rparr>, \<lparr>unread = [[4]], chunk = 2\<rparr>]
          (initial_world [] (constant_gen 0))) =
     Inr [\<lparr>unread = [[3]], chunk = 2\<rparr>, \<lparr>unread = [], chunk = 2\<rparr>] \<and>
   cursor_measure [\<lparr>unread = [[3 :: nat]], chunk = 2\<rparr>, \<lparr>unread = [], chunk = 2\<rparr>] <
     cursor_measure [\<lparr>unread = [[1], [2], [3 :: nat]], chunk = 2\<rparr>, \<lparr>unread = [[4]], chunk = 2\<rparr>]"
proof -
  let ?c1 = "\<lparr>unread = [[1], [2], [3 :: nat]], chunk = 2\<rparr>"
  let ?c2 = "\<lparr>unread = [[4 :: nat]], chunk = 2\<rparr>"
  let ?W = "initial_world ([] :: nat list) (constant_gen 0)"
  have n: "next_chunk ?c1 = Some ([[1], [2]], \<lparr>unread = [[3]], chunk = 2\<rparr>)"
    by code_simp
  have m: "fst (merge_round [?c1, ?c2] ?W) =
             Inr [\<lparr>unread = [[3]], chunk = 2\<rparr>, \<lparr>unread = [], chunk = 2\<rparr>]"
    by code_simp
  have pos: "\<forall>b \<in> set [?c1, ?c2]. 0 < chunk b" by simp
  from phase2_terminates [OF pos, of ?W
      "[\<lparr>unread = [[3]], chunk = 2\<rparr>, \<lparr>unread = [], chunk = 2\<rparr>]"] n m
  show ?thesis by simp
qed

text \<open>
  C10. Whatever the configured element type \<open>dtype\<close>, a run with a positive block size
  first constructs the Scratch Scope with element type \<^verbatim>\<open>'float64'\<close> and tag
  \<^verbatim>\<open>'samplesort'\<close>, then the Block Writer and the Block Reader with \<open>dtype\<close>: these
  are the first three calls of every run that ends, normally or by an error.
\<close>

theorem scratch_scope_is_float64:
  assumes "0 < num_per_block"
    and "external_shuffle dtype n num_features num_per_block train_path w = Some (r, w')"
  shows "take 3 (run_trace w w') =
           [NewBlockScope ''float64'' ''samplesort'' num_per_block,
            NewBlockWriter dtype num_per_block train_path,
            NewBlockBuffer dtype num_per_block train_path (num_per_block, num_features + 1)]"
proof -
  from external_shuffle_scoped [OF assms]
  obtain w1 ks where
    w': "w' = scope_exit w1"
    and tr: "trace w1 = trace w @
               [NewBlockScope ''float64'' ''samplesort'' num_per_block,
                NewBlockWriter dtype num_per_block train_path,
                NewBlockBuffer dtype num_per_block train_path (num_per_block, num_features + 1)]
               @ map MergeRound ks"
    by blast
  show ?thesis
    by (simp add: run_trace_def w' scope_exit_def tr)
qed

theorem scratch_scope_is_float64_witness:
  "(0 :: nat) < 2 \<and>
   (\<exists>r w'. external_shuffle ''uint8'' 4 1 2 ''train''
              (initial_world [1, 2, 3, 4, 5, 6, 7, 8 :: nat] (constant_gen 0)) = Some (r, w') \<and>
            take 3 (run_trace (initial_world [1, 2, 3, 4, 5, 6, 7, 8 :: nat] (constant_gen 0)) w') =
              [NewBlockScope ''float64'' ''samplesort'' 2, NewBlockWriter ''uint8'' 2 ''train'',
               NewBlockBuffer ''uint8'' 2 ''train'' (2, 2)])"
proof -
  let ?W = "initial_world [1, 2, 3, 4, 5, 6, 7, 8 :: nat] (constant_gen 0)"
  have "map_option fst (external_shuffle ''uint8'' 4 1 2 ''train'' ?W) = Some (Inr ())"
    by code_simp
  then obtain w' where run: "external_shuffle ''uint8'' 4 1 2 ''train'' ?W = Some (Inr (), w')"
    by auto
  from scratch_scope_is_float64 [OF _ run] run show ?thesis
    by (simp add: numeral_2_eq_2)
qed

text \<open>
  C9. With a block size of \<open>0\<close> a run raises \<open>ZeroDivisionError\<close> at line 76, before
  the Scratch Scope is acquired, and the world is untouched. Otherwise both phases run
  inside the scope: whenever the body of the \<^verbatim>\<open>with\<close> statement ends, be it by a
  normal return or by an error raised in Phase 1 or Phase 2, the run ends with the same
  outcome and without any scratch slot; and every run that ends has ended in this way.
\<close>

theorem scratch_scope_released:
  "(num_per_block = 0 \<longrightarrow>
      external_shuffle dtype n num_features num_per_block train_path w =
        Some (Inl ZeroDivisionError, w)) \<and>
   (0 < num_per_block \<longrightarrow>
      (\<forall>r w1.
          shuffle_body dtype (of_nat n / of_nat num_per_block) num_features num_per_block
            train_path (scope_enter ''float64'' ''samplesort'' num_per_block w) = Some (r, w1) \<longrightarrow>
          external_shuffle dtype n num_features num_per_block train_path w =
            Some (r, scope_exit w1) \<and>
          scratch (scope_exit w1) = Map.empty) \<and>
      (\<forall>r w'.
          external_shuffle dtype n num_features num_per_block train_path w = Some (r, w') \<longrightarrow>
          scratch w' = Map.empty \<and>
          (\<exists>w1. shuffle_body dtype (of_nat n / of_nat num_per_block) num_features
                   num_per_block train_path
                   (scope_enter ''float64'' ''samplesort'' num_per_block w) = Some (r, w1) \<and>
                 w' = scope_exit w1)))"
proof (intro conjI impI allI)
  assume "num_per_block = 0"
  then show "external_shuffle dtype n num_features num_per_block train_path w =
               Some (Inl ZeroDivisionError, w)"
    by (simp add: external_shuffle_zero)
next
  fix r w1
  assume "0 < num_per_block"
    and "shuffle_body dtype (of_nat n / of_nat num_per_block) num_features num_per_block
           train_path (scope_enter ''float64'' ''samplesort'' num_per_block w) = Some (r, w1)"
  then show "external_shuffle dtype n num_features num_per_block train_path w =
               Some (r, scope_exit w1)"
    by (simp add: external_shuffle_body)
next
  fix w1 :: "'a world"
  show "scratch (scope_exit w1) = Map.empty"
    by (simp add: scope_exit_def)
next
  fix r w'
  assume pos: "0 < num_per_block"
    and run: "external_shuffle dtype n num_features num_per_block train_path w = Some (r, w')"
  from external_shuffle_scoped [OF pos run]
  obtain w1 where body:
    "shuffle_body dtype (of_nat n / of_nat num_per_block) num_features num_per_block
       train_path (scope_enter ''float64'' ''samplesort'' num_per_block w) = Some (r, w1)"
    and w': "w' = scope_exit w1"
    by blast
  show "scratch w' = Map.empty"
    by (simp add: w' scope_exit_def)
  from body w'
  show "\<exists>w1. shuffle_body dtype (of_nat n / of_nat num_per_block) num_features
               num_per_block train_path
               (scope_enter ''float64'' ''samplesort'' num_per_block w) = Some (r, w1) \<and>
             w' = scope_exit w1"
    by blast
qed

theorem scratch_scope_released_witness:
  "\<exists>w1 w'.
     shuffle_body ''float64'' (of_nat 4 / of_nat 2) 0 2 ''train''
       (scope_enter ''float64'' ''samplesort'' 2
          ((initial_world [1, 2, 3, 4 :: nat] (constant_gen 0))\<lparr>scratch_ok := ok_except 1\<rparr>)) =
       Some (Inl DatasetWriteError, w1) \<and>
     scratch w1 0 = Some [[2], [1]] \<and>
     external_shuffle ''float64'' 4 0 2 ''train''
       ((initial_world [1, 2, 3, 4 :: nat] (constant_gen 0))\<lparr>scratch_ok := ok_except 1\<rparr>) =
       Some (Inl DatasetWriteError, w') \<and>
     scratch w' = Map.empty"
proof -
  let ?W = "(initial_world [1, 2, 3, 4 :: nat] (constant_gen 0))\<lparr>scratch_ok := ok_except 1\<rparr>"
  let ?body = "shuffle_body ''float64'' (of_nat 4 / of_nat 2) 0 2 ''train''
                 (scope_enter ''float64'' ''samplesort'' 2 ?W)"
  have r: "map_option fst ?body = Some (Inl DatasetWriteError)"
    by code_simp
  have s: "map_option (\<lambda>p. scratch (snd p) 0) ?body = Some (Some [[2], [1]])"
    by code_simp
  from r obtain w1 where body: "?body = Some (Inl DatasetWriteError, w1)"
    by auto
  with s have slot: "scratch w1 0 = Some [[2], [1]]" by simp
  have pos: "(0 :: nat) < 2" by simp
  note released = scratch_scope_released [of 2 "''float64''" 4 0 "''train''" ?W,
      THEN conjunct2, THEN mp, OF pos, THEN conjunct1, rule_format, OF body]
  from released have "external_shuffle ''float64'' 4 0 2 ''train'' ?W =
                        Some (Inl DatasetWriteError, scope_exit w1)"
    and "scratch (scope_exit w1) = Map.empty"
    by (rule conjunct1, rule conjunct2)
  with body slot show ?thesis by blast
qed




end
